theory Spec2Isabelle
  imports Main "HOL-Library.Multiset"
begin

section \<open>Strings\<close>

text \<open>
  Paths and file texts are \<open>QString\<close>s, modelled as \<open>string\<close> (a list of characters).
  A \<open>QString\<close> that a function returns can also be the null string \<open>QString()\<close>, which
  Qt keeps apart from the empty string \<open>""\<close>: both are empty (\<open>isEmpty\<close>) and compare equal
  with \<open>==\<close>, only \<open>isNull\<close> tells them apart. Where the source returns \<open>QString()\<close>
  the model returns \<open>None\<close>; a string with characters or \<open>""\<close> is \<open>Some s\<close>.
\<close>

type_synonym QString = "string option"

definition isNull :: "QString \<Rightarrow> bool" where
  "isNull q = (case q of None \<Rightarrow> True | Some s \<Rightarrow> False)"

definition isEmpty :: "QString \<Rightarrow> bool" where
  "isEmpty q = (case q of None \<Rightarrow> True | Some s \<Rightarrow> s = [])"

definition toText :: "QString \<Rightarrow> string" where
  "toText q = (case q of None \<Rightarrow> [] | Some s \<Rightarrow> s)"

text \<open>\<open>operator==\<close> of \<open>QString\<close> compares the characters: null and empty are equal.\<close>

definition qeq :: "QString \<Rightarrow> QString \<Rightarrow> bool" where
  "qeq a b = (toText a = toText b)"

text \<open>\<open>QString::startsWith\<close> and \<open>QString::endsWith\<close>, case sensitive as called.\<close>

definition startsWith :: "string \<Rightarrow> string \<Rightarrow> bool" where
  "startsWith s p = (take (length p) s = p)"

definition endsWith :: "string \<Rightarrow> string \<Rightarrow> bool" where
  "endsWith s p = (length p \<le> length s \<and> drop (length s - length p) s = p)"

text \<open>\<open>QString::remove(position, n)\<close>: the string without \<open>n\<close> characters from \<open>position\<close>.\<close>

definition remove :: "nat \<Rightarrow> nat \<Rightarrow> string \<Rightarrow> string" where
  "remove pos n s = take pos s @ drop (pos + n) s"

text \<open>
  \<open>QChar::isSpace\<close> on the characters a \<open>char\<close> can hold: tab, line feed, vertical tab,
  form feed, carriage return, space, next line (0x85) and no-break space (0xA0).
\<close>

definition isSpace :: "char \<Rightarrow> bool" where
  "isSpace c = (c \<in> set [CHR 0x09, CHR 0x0A, CHR 0x0B, CHR 0x0C, CHR 0x0D, CHR 0x20, CHR 0x85, CHR 0xA0])"

text \<open>\<open>QString::trimmed\<close>: whitespace removed from the start and the end.\<close>

definition trimmed :: "string \<Rightarrow> string" where
  "trimmed s = rev (dropWhile isSpace (rev (dropWhile isSpace s)))"

section \<open>The SQL engine\<close>

text \<open>
  The constructor opens the database with the \<open>QSQLITE\<close> driver. The connection is either
  closed (opening it failed) or open; an open database has the table \<open>applications\<close> or
  not, and the table is its rows (the column \<open>path\<close>) in the order in which the engine
  returns them. A statement is a function to \<open>option\<close>: \<open>None\<close> is \<open>exec()\<close> returning
  false. The engine is deterministic: a statement fails to execute when the connection
  is closed, when the table it names is missing (or, for \<open>CREATE TABLE\<close>, is there
  already), and when an \<open>INSERT\<close> violates the primary key.
\<close>

datatype db = Closed | Opened "string list option"

definition rows :: "db \<Rightarrow> string list" where
  "rows d = (case d of Opened (Some rs) \<Rightarrow> rs | _ \<Rightarrow> [])"

text \<open>
  SQLite's \<open>LIKE\<close>: \<open>%\<close> in the pattern matches any run of characters, \<open>_\<close> matches one
  character, and every other character matches itself, upper and lower case of the
  ASCII letters taken as equal (the driver's default, which the source does not change).
\<close>

definition asciiLower :: "char \<Rightarrow> char" where
  "asciiLower c =
     (case map_of (zip ''ABCDEFGHIJKLMNOPQRSTUVWXYZ'' ''abcdefghijklmnopqrstuvwxyz'') c of
        Some l \<Rightarrow> l
      | None \<Rightarrow> c)"

fun like :: "string \<Rightarrow> string \<Rightarrow> bool" where
  "like [] [] = True"
| "like [] (x # xs) = False"
| "like (p # ps) [] = (p = CHR ''%'' \<and> like ps [])"
| "like (p # ps) (x # xs) =
     (if p = CHR ''%'' then like ps (x # xs) \<or> like (p # ps) xs
      else (p = CHR ''_'' \<or> asciiLower p = asciiLower x) \<and> like ps xs)"

text \<open>\<open>CREATE TABLE applications(path TEXT PRIMARY KEY);\<close>\<close>

definition exec_create :: "db \<Rightarrow> db option" where
  "exec_create d = (case d of Opened None \<Rightarrow> Some (Opened (Some [])) | _ \<Rightarrow> None)"

text \<open>
  \<open>INSERT INTO applications (path) VALUES (:path)\<close>: the primary key refuses a second
  row with the same path; a new row is the last that the engine returns.
\<close>

definition exec_insert :: "string \<Rightarrow> db \<Rightarrow> db option" where
  "exec_insert p d =
     (case d of
        Opened (Some rs) \<Rightarrow> if p \<in> set rs then None else Some (Opened (Some (rs @ [p])))
      | _ \<Rightarrow> None)"

text \<open>\<open>DELETE FROM applications WHERE path = (:path)\<close>\<close>

definition exec_delete :: "string \<Rightarrow> db \<Rightarrow> db option" where
  "exec_delete p d =
     (case d of
        Opened (Some rs) \<Rightarrow> Some (Opened (Some (filter (\<lambda>r. r \<noteq> p) rs)))
      | _ \<Rightarrow> None)"

text \<open>\<open>DELETE FROM applications\<close>\<close>

definition exec_delete_all :: "db \<Rightarrow> db option" where
  "exec_delete_all d = (case d of Opened (Some rs) \<Rightarrow> Some (Opened (Some [])) | _ \<Rightarrow> None)"

text \<open>\<open>SELECT path FROM applications WHERE path = (:path)\<close>\<close>

definition exec_select_eq :: "string \<Rightarrow> db \<Rightarrow> string list option" where
  "exec_select_eq p d =
     (case d of Opened (Some rs) \<Rightarrow> Some (filter (\<lambda>r. r = p) rs) | _ \<Rightarrow> None)"

text \<open>\<open>SELECT * FROM applications WHERE path LIKE pat\<close>, and \<open>NOT LIKE\<close> when \<open>neg\<close>.\<close>

definition exec_select_like :: "bool \<Rightarrow> string \<Rightarrow> db \<Rightarrow> string list option" where
  "exec_select_like neg pat d =
     (case d of
        Opened (Some rs) \<Rightarrow> Some (filter (\<lambda>r. if neg then \<not> like pat r else like pat r) rs)
      | _ \<Rightarrow> None)"

section \<open>The registry store (DbManager)\<close>

text \<open>
  The functions of \<open>DbManager\<close> on the database take the database and return their
  result with the database after the call. The private functions \<open>_createTable\<close>,
  \<open>_addApplication\<close> and \<open>_removeApplication\<close> are written without the underscore.
\<close>

definition isOpen :: "db \<Rightarrow> bool" where
  "isOpen d = (case d of Closed \<Rightarrow> False | Opened t \<Rightarrow> True)"

text \<open>
  \<open>_createTable\<close>: \<open>success\<close> starts false, is set to false again when the statement
  fails, and is returned.
\<close>

definition createTable :: "db \<Rightarrow> bool \<times> db" where
  "createTable d =
     (let success = False in
      case exec_create d of
        None \<Rightarrow> (False, d)
      | Some d' \<Rightarrow> (success, d'))"

definition addApplication :: "db \<Rightarrow> string \<Rightarrow> bool \<times> db" where
  "addApplication d path =
     (if path \<noteq> [] then
        (case exec_insert path d of
           Some d' \<Rightarrow> (True, d')
         | None \<Rightarrow> (False, d))
      else (False, d))"

definition applicationExists :: "db \<Rightarrow> string \<Rightarrow> bool" where
  "applicationExists d path =
     (case exec_select_eq path d of
        Some result \<Rightarrow> (if result \<noteq> [] then True else False)
      | None \<Rightarrow> False)"

definition removeApplication :: "db \<Rightarrow> string \<Rightarrow> bool \<times> db" where
  "removeApplication d path =
     (if applicationExists d path then
        (case exec_delete path d of
           Some d' \<Rightarrow> (True, d')
         | None \<Rightarrow> (False, d))
      else (False, d))"

text \<open>
  \<open>allApplications\<close>: the loop over \<open>query.next()\<close> appends every row of the result; a
  query that failed has no row.
\<close>

definition allApplications :: "db \<Rightarrow> string list" where
  "allApplications d =
     (let results = [];
          results = results @ (case exec_select_like True ''%.desktop'' d of Some rs \<Rightarrow> rs | None \<Rightarrow> []);
          results = results @ (case exec_select_like False ''%.desktop'' d of Some rs \<Rightarrow> rs | None \<Rightarrow> [])
      in results)"

definition removeAllApplications :: "db \<Rightarrow> bool \<times> db" where
  "removeAllApplications d =
     (case exec_delete_all d of
        Some d' \<Rightarrow> (True, d')
      | None \<Rightarrow> (False, d))"

section \<open>The file system and the attribute store\<close>

text \<open>
  What \<open>handleApplication\<close> and \<open>getCanOpenFromFile\<close> see of the machine: the registry
  store, the flag the constructor sets, the file system (the resolved form of each path
  that exists, \<open>QFileInfo::isDir\<close>, \<open>QFileInfo::isFile\<close>, and for each path whether it
  opens for reading and the text a \<open>QTextStream\<close> on it delivers), and the extended attributes
  with, for each path, whether setting one succeeds. The trace records every call to
  the attribute store and every file that is opened, in the order of the calls.
\<close>

datatype event =
    AttrGet string string
  | AttrSet string string string
  | FileOpen string

record sysstate =
  store :: db
  filesystemSupportsExtattr :: bool
  realPath :: "string \<Rightarrow> string option"
  isDir :: "string \<Rightarrow> bool"
  isFile :: "string \<Rightarrow> bool"
  fileText :: "string \<Rightarrow> string option"
  xattr :: "string \<times> string \<Rightarrow> string option"
  xattrSettable :: "string \<Rightarrow> bool"
  trace :: "event list"

text \<open>
  \<open>QDir(path).canonicalPath()\<close>: the path with its links and relative segments resolved,
  and the empty string when the path does not exist (\<open>realPath\<close> is \<open>None\<close>).
\<close>

definition canonicalPath :: "sysstate \<Rightarrow> string \<Rightarrow> string" where
  "canonicalPath w path = (case realPath w path of None \<Rightarrow> [] | Some c \<Rightarrow> c)"

definition isAttrSet :: "event \<Rightarrow> bool" where
  "isAttrSet e = (case e of AttrSet p k v \<Rightarrow> True | _ \<Rightarrow> False)"

text \<open>The calls of the attribute store's string setter that a trace holds.\<close>

definition attrSets :: "event list \<Rightarrow> event list" where
  "attrSets tr = filter isAttrSet tr"

text \<open>
  Modelled from the spec: \<open>Fm::getAttributeValueQString\<close> of \<open>extattrs.h\<close>, which is not
  among the sources. The spec gives \<open>getAttributeString(path, key) -> (value, ok)\<close>, where
  \<open>ok = false\<close> means that the attribute is absent or that the file system does not
  support the operation.
\<close>

definition getAttributeValueQString ::
    "sysstate \<Rightarrow> string \<Rightarrow> string \<Rightarrow> (QString \<times> bool) \<times> sysstate" where
  "getAttributeValueQString w path key =
     (let w' = w\<lparr>trace := trace w @ [AttrGet path key]\<rparr> in
      case xattr w (path, key) of
        None \<Rightarrow> ((None, False), w')
      | Some v \<Rightarrow> ((Some v, True), w'))"

text \<open>
  Modelled from the spec: \<open>Fm::setAttributeValueQString\<close> of \<open>extattrs.h\<close>, which is not
  among the sources. The spec gives \<open>setAttributeString(path, key, value) -> ok\<close>.
\<close>

definition setAttributeValueQString ::
    "sysstate \<Rightarrow> string \<Rightarrow> string \<Rightarrow> string \<Rightarrow> bool \<times> sysstate" where
  "setAttributeValueQString w path key v =
     (let w' = w\<lparr>trace := trace w @ [AttrSet path key v]\<rparr> in
      if xattrSettable w path then (True, w'\<lparr>xattr := (xattr w)((path, key) \<mapsto> v)\<rparr>)
      else (False, w'))"

text \<open>\<open>QFile::open\<close> for reading in text mode: the text of the file, or \<open>None\<close>.\<close>

definition openFile :: "sysstate \<Rightarrow> string \<Rightarrow> string option \<times> sysstate" where
  "openFile w f = (fileText w f, w\<lparr>trace := trace w @ [FileOpen f]\<rparr>)"

section \<open>Reading a text stream\<close>

text \<open>
  A \<open>QTextStream\<close> is the text that is still to be read. \<open>readLine\<close> returns the
  characters up to the next line feed, without the line feed and without a carriage
  return before it, and leaves the text after the line feed.
\<close>

definition atEnd :: "string \<Rightarrow> bool" where
  "atEnd inp = (inp = [])"

definition readLine :: "string \<Rightarrow> string \<times> string" where
  "readLine inp =
     (let l = takeWhile (\<lambda>c. c \<noteq> CHR 0x0A) inp;
          r = dropWhile (\<lambda>c. c \<noteq> CHR 0x0A) inp
      in (if r \<noteq> [] \<and> l \<noteq> [] \<and> last l = CHR 0x0D then butlast l else l, drop 1 r))"

text \<open>\<open>QTextStream::readAll\<close>: all the text that is still to be read.\<close>

definition readAll :: "string \<Rightarrow> QString" where
  "readAll inp = Some inp"

lemma readLine_shorter: "inp \<noteq> [] \<Longrightarrow> length (snd (readLine inp)) < length inp"
proof -
  assume ne: "inp \<noteq> []"
  define r where "r = dropWhile (\<lambda>c. c \<noteq> CHR 0x0A) inp"
  have le: "length r \<le> length inp"
    unfolding r_def by (rule length_dropWhile_le)
  have "length (snd (readLine inp)) = length r - 1"
    by (simp add: readLine_def r_def Let_def)
  moreover from ne have "0 < length inp" by simp
  ultimately show ?thesis using le by arith
qed

text \<open>
  The loop of \<open>getCanOpenFromFile\<close> over the lines of a desktop file: \<open>mime\<close> is
  overwritten at every trimmed line that starts with \<open>MimeType=\<close>.
\<close>

function scanLines :: "string \<Rightarrow> string \<Rightarrow> string" where
  "scanLines inp mime =
     (if \<not> atEnd inp then
        (let getLine = trimmed (fst (readLine inp)) in
         if startsWith getLine ''MimeType=''
         then scanLines (snd (readLine inp)) (remove 0 9 getLine)
         else scanLines (snd (readLine inp)) mime)
      else mime)"
  by pat_completeness auto
termination
  by (relation "measure (\<lambda>(inp, mime). length inp)") (auto simp: atEnd_def readLine_shorter)

text \<open>The lines that the loop reads, in order.\<close>

function textLines :: "string \<Rightarrow> string list" where
  "textLines inp = (if atEnd inp then [] else fst (readLine inp) # textLines (snd (readLine inp)))"
  by pat_completeness auto
termination
  by (relation "measure length") (auto simp: atEnd_def readLine_shorter)

text \<open>The trimmed lines of a text that start with \<open>MimeType=\<close>, in order.\<close>

definition mimeLines :: "string \<Rightarrow> string list" where
  "mimeLines inp = filter (\<lambda>l. startsWith l ''MimeType='') (map trimmed (textLines inp))"

declare scanLines.simps [simp del]

declare textLines.simps [simp del]

section \<open>The capability resolver\<close>

definition getCanOpenFromFile :: "sysstate \<Rightarrow> string \<Rightarrow> QString \<times> sysstate" where
  "getCanOpenFromFile w cp =
     (if endsWith cp ''.app'' then
        (let canOpenFilePath = cp @ ''/Resources/can-open'' in
         if \<not> isFile w canOpenFilePath then (None, w)
         else
           (case openFile w canOpenFilePath of
              (None, w') \<Rightarrow> (None, w')
            | (Some t, w') \<Rightarrow> (readAll t, w')))
      else if endsWith cp ''.desktop'' then
        (case getAttributeValueQString w cp ''can-open'' of
           ((v, ok), w1) \<Rightarrow>
             if ok then (None, w1)
             else
               (case openFile w1 cp of
                  (None, w2) \<Rightarrow> (Some [], w2)
                | (Some t, w2) \<Rightarrow> (Some (scanLines t []), w2)))
      else (None, w))"

definition handleApplication :: "sysstate \<Rightarrow> string \<Rightarrow> sysstate" where
  "handleApplication w path =
     (let cp = canonicalPath w path in
      if \<not> (isDir w cp \<or> isFile w cp) then
        w\<lparr>store := snd (removeApplication (store w) cp)\<rparr>
      else
        (let w1 = w\<lparr>store := snd (addApplication (store w) cp)\<rparr> in
         if \<not> filesystemSupportsExtattr w1 then w1
         else
           (case getAttributeValueQString w1 cp ''can-open'' of
              ((v, ok), w2) \<Rightarrow>
                if ok then w2
                else
                  (case getCanOpenFromFile w2 cp of
                     (mime, w3) \<Rightarrow>
                       if isEmpty mime then w3
                       else if qeq mime (Some []) then w3
                       else snd (setAttributeValueQString w3 cp ''can-open'' (toText mime))))))"

section \<open>Sequences of operations\<close>

text \<open>
  The operations of the class, to state what every sequence of them keeps. The lookups
  (\<open>applicationExists\<close>, \<open>allApplications\<close>) are \<open>const\<close>: they leave the state as it is.
\<close>

datatype operation =
    OpCreateTable
  | OpAdd string
  | OpRemove string
  | OpRemoveAll
  | OpExists string
  | OpAll
  | OpHandle string

fun perform :: "sysstate \<Rightarrow> operation \<Rightarrow> sysstate" where
  "perform w OpCreateTable = w\<lparr>store := snd (createTable (store w))\<rparr>"
| "perform w (OpAdd p) = w\<lparr>store := snd (addApplication (store w) p)\<rparr>"
| "perform w (OpRemove p) = w\<lparr>store := snd (removeApplication (store w) p)\<rparr>"
| "perform w OpRemoveAll = w\<lparr>store := snd (removeAllApplications (store w))\<rparr>"
| "perform w (OpExists p) = (let r = applicationExists (store w) p in w)"
| "perform w OpAll = (let r = allApplications (store w) in w)"
| "perform w (OpHandle p) = handleApplication w p"

section \<open>The LIKE pattern of the listing\<close>

lemma like_literal:
  "CHR ''%'' \<notin> set lit \<Longrightarrow> CHR ''_'' \<notin> set lit \<Longrightarrow>
   like lit s = (map asciiLower s = map asciiLower lit)"
proof (induction lit s rule: like.induct)
  case 1 then show ?case by simp
next
  case (2 x xs) then show ?case by simp
next
  case (3 p ps) then show ?case by auto
next
  case (4 p ps x xs) then show ?case by auto
qed

lemma like_percent_literal:
  assumes "CHR ''%'' \<notin> set lit" and "CHR ''_'' \<notin> set lit"
  shows "like (CHR ''%'' # lit) s =
    (\<exists>pre suf. s = pre @ suf \<and> map asciiLower suf = map asciiLower lit)"
proof (induction s)
  case Nil
  show ?case using assms by (simp add: like_literal)
next
  case (Cons x xs)
  have "like (CHR ''%'' # lit) (x # xs) = (like lit (x # xs) \<or> like (CHR ''%'' # lit) xs)"
    by simp
  also have "\<dots> = (map asciiLower (x # xs) = map asciiLower lit \<or>
      (\<exists>pre suf. xs = pre @ suf \<and> map asciiLower suf = map asciiLower lit))"
    using assms Cons.IH by (simp add: like_literal)
  also have "\<dots> = (\<exists>pre suf. x # xs = pre @ suf \<and> map asciiLower suf = map asciiLower lit)"
  proof
    assume "map asciiLower (x # xs) = map asciiLower lit \<or>
      (\<exists>pre suf. xs = pre @ suf \<and> map asciiLower suf = map asciiLower lit)"
    then show "\<exists>pre suf. x # xs = pre @ suf \<and> map asciiLower suf = map asciiLower lit"
    proof
      assume "map asciiLower (x # xs) = map asciiLower lit"
      then have "x # xs = [] @ (x # xs) \<and> map asciiLower (x # xs) = map asciiLower lit" by simp
      then show ?thesis by blast
    next
      assume "\<exists>pre suf. xs = pre @ suf \<and> map asciiLower suf = map asciiLower lit"
      then obtain pre suf where "xs = pre @ suf" "map asciiLower suf = map asciiLower lit" by blast
      then have "x # xs = (x # pre) @ suf \<and> map asciiLower suf = map asciiLower lit" by simp
      then show ?thesis by blast
    qed
  next
    assume "\<exists>pre suf. x # xs = pre @ suf \<and> map asciiLower suf = map asciiLower lit"
    then obtain pre suf where ps: "x # xs = pre @ suf" "map asciiLower suf = map asciiLower lit" by blast
    show "map asciiLower (x # xs) = map asciiLower lit \<or>
      (\<exists>pre suf. xs = pre @ suf \<and> map asciiLower suf = map asciiLower lit)"
    proof (cases pre)
      case Nil
      with ps show ?thesis by simp
    next
      case (Cons y ys)
      with ps have "xs = ys @ suf" by simp
      with ps(2) show ?thesis by blast
    qed
  qed
  finally show ?case .
qed

lemma endsWith_iff: "endsWith s p = (\<exists>pre. s = pre @ p)"
proof
  assume "endsWith s p"
  then have "length p \<le> length s" "drop (length s - length p) s = p"
    by (simp_all add: endsWith_def)
  then have "s = take (length s - length p) s @ p" by (metis append_take_drop_id)
  then show "\<exists>pre. s = pre @ p" ..
next
  assume "\<exists>pre. s = pre @ p"
  then obtain pre where "s = pre @ p" ..
  then show "endsWith s p" by (simp add: endsWith_def)
qed

lemma like_desktop: "like ''%.desktop'' s = endsWith (map asciiLower s) ''.desktop''"
proof -
  have lit: "map asciiLower ''.desktop'' = ''.desktop''"
    by code_simp
  have "like (CHR ''%'' # ''.desktop'') s =
    (\<exists>pre suf. s = pre @ suf \<and> map asciiLower suf = map asciiLower ''.desktop'')"
    by (rule like_percent_literal) simp_all
  also have "\<dots> = (\<exists>pre. map asciiLower s = pre @ ''.desktop'')"
  proof
    assume "\<exists>pre suf. s = pre @ suf \<and> map asciiLower suf = map asciiLower ''.desktop''"
    then obtain pre suf where "s = pre @ suf" "map asciiLower suf = map asciiLower ''.desktop''" by blast
    then have "map asciiLower s = map asciiLower pre @ ''.desktop''" using lit by simp
    then show "\<exists>pre. map asciiLower s = pre @ ''.desktop''" by blast
  next
    assume "\<exists>pre. map asciiLower s = pre @ ''.desktop''"
    then obtain pre where e: "map asciiLower s = pre @ ''.desktop''" ..
    have "drop (length pre) (map asciiLower s) = ''.desktop''"
      unfolding e by simp
    then have "map asciiLower (drop (length pre) s) = ''.desktop''"
      by (simp only: drop_map)
    then have "s = take (length pre) s @ drop (length pre) s \<and>
        map asciiLower (drop (length pre) s) = map asciiLower ''.desktop''"
      using lit by simp
    then show "\<exists>pre suf. s = pre @ suf \<and> map asciiLower suf = map asciiLower ''.desktop''"
      by (intro exI)
  qed
  finally show ?thesis by (simp only: endsWith_iff)
qed

lemma allApplications_rows:
  "allApplications d =
     filter (\<lambda>p. \<not> like ''%.desktop'' p) (rows d) @ filter (like ''%.desktop'') (rows d)"
proof (cases d)
  case Closed
  then show ?thesis by (simp add: allApplications_def exec_select_like_def rows_def)
next
  case (Opened t)
  then show ?thesis
    by (cases t) (simp_all add: allApplications_def exec_select_like_def rows_def)
qed

section \<open>The listing order (C1)\<close>

text \<open>
  C1, as amended. \<open>allApplications\<close> returns every row of the table, in two passes:
  first the rows whose path does not end in \<open>.desktop\<close>, then the rows whose path does,
  each pass in the order of the table, where the end of the path is compared as
  \<open>LIKE\<close> compares it: without regard to the case of the ASCII letters. On the store
  with \<open>/a/x.desktop\<close>, \<open>/a/y.app\<close> and \<open>/a/z\<close> it returns \<open>/a/y.app\<close> and \<open>/a/z\<close>
  before \<open>/a/x.desktop\<close>.
\<close>

theorem allApplications_two_pass:
  "allApplications d =
     filter (\<lambda>p. \<not> endsWith (map asciiLower p) ''.desktop'') (rows d) @
     filter (\<lambda>p. endsWith (map asciiLower p) ''.desktop'') (rows d)
   \<and> mset (allApplications d) = mset (rows d)
   \<and> allApplications (Opened (Some [''/a/x.desktop'', ''/a/y.app'', ''/a/z''])) =
       [''/a/y.app'', ''/a/z'', ''/a/x.desktop'']"
proof -
  have a: "allApplications d =
     filter (\<lambda>p. \<not> endsWith (map asciiLower p) ''.desktop'') (rows d) @
     filter (\<lambda>p. endsWith (map asciiLower p) ''.desktop'') (rows d)"
  proof -
    have "like ''%.desktop'' = (\<lambda>p. endsWith (map asciiLower p) ''.desktop'')"
      by (rule ext) (rule like_desktop)
    then show ?thesis by (simp only: allApplications_rows)
  qed
  have "mset (allApplications d) = mset (rows d)"
    unfolding a by simp
  moreover have "allApplications (Opened (Some [''/a/x.desktop'', ''/a/y.app'', ''/a/z''])) =
       [''/a/y.app'', ''/a/z'', ''/a/x.desktop'']"
    by code_simp
  ultimately show ?thesis using a by blast
qed

theorem allApplications_two_pass_witness:
  "allApplications (Opened (Some [''/a/B.Desktop'', ''/a/y.app''])) =
     filter (\<lambda>p. \<not> endsWith (map asciiLower p) ''.desktop'')
       (rows (Opened (Some [''/a/B.Desktop'', ''/a/y.app'']))) @
     filter (\<lambda>p. endsWith (map asciiLower p) ''.desktop'')
       (rows (Opened (Some [''/a/B.Desktop'', ''/a/y.app''])))
   \<and> allApplications (Opened (Some [''/a/B.Desktop'', ''/a/y.app''])) =
       [''/a/y.app'', ''/a/B.Desktop'']"
proof -
  have "allApplications (Opened (Some [''/a/B.Desktop'', ''/a/y.app''])) =
       [''/a/y.app'', ''/a/B.Desktop'']"
    by code_simp
  then show ?thesis
    using allApplications_two_pass [of "Opened (Some [''/a/B.Desktop'', ''/a/y.app''])"]
    by simp
qed

text \<open>
  C1 as the claim states it, with the end of the path compared exactly, fails: of two
  rows \<open>/a/x.desktop\<close> and \<open>/a/y.DESKTOP\<close> the second does not end in \<open>.desktop\<close>, and
  \<open>allApplications\<close> returns it in the second pass, after the first, which does.
\<close>

theorem allApplications_two_pass_counterexample:
  "allApplications (Opened (Some [''/a/x.desktop'', ''/a/y.DESKTOP''])) =
     [''/a/x.desktop'', ''/a/y.DESKTOP'']
   \<and> endsWith ''/a/x.desktop'' ''.desktop''
   \<and> \<not> endsWith ''/a/y.DESKTOP'' ''.desktop''"
  by code_simp

section \<open>What the statements do to the rows\<close>

lemma rows_createTable: "rows (snd (createTable d)) = rows d"
  by (cases d rule: db.exhaust)
    (auto simp: createTable_def exec_create_def rows_def split: option.splits)

lemma rows_addApplication:
  "rows (snd (addApplication d p)) =
     (if p \<noteq> [] \<and> p \<notin> set (rows d) \<and> d \<noteq> Closed \<and> d \<noteq> Opened None then rows d @ [p] else rows d)"
  by (cases d rule: db.exhaust)
    (auto simp: addApplication_def exec_insert_def rows_def split: option.splits)

lemma rows_removeApplication: "rows (snd (removeApplication d p)) = filter (\<lambda>r. r \<noteq> p) (rows d)"
proof (cases d)
  case Closed
  then show ?thesis
    by (simp add: removeApplication_def applicationExists_def exec_select_eq_def rows_def)
next
  case (Opened t)
  show ?thesis
  proof (cases t)
    case None
    with Opened show ?thesis
      by (simp add: removeApplication_def applicationExists_def exec_select_eq_def rows_def)
  next
    case (Some rs)
    have "filter (\<lambda>r. r = p) rs = [] \<Longrightarrow> filter (\<lambda>r. r \<noteq> p) rs = rs"
      by (induction rs) (auto split: if_splits)
    with Opened Some show ?thesis
      by (simp add: removeApplication_def applicationExists_def exec_select_eq_def
          exec_delete_def rows_def)
  qed
qed

lemma rows_removeAllApplications: "rows (snd (removeAllApplications d)) = []"
  by (cases d rule: db.exhaust)
    (auto simp: removeAllApplications_def exec_delete_all_def rows_def split: option.splits)

lemma applicationExists_rows: "applicationExists d p = (p \<in> set (rows d))"
proof (cases d)
  case Closed
  then show ?thesis by (simp add: applicationExists_def exec_select_eq_def rows_def)
next
  case (Opened t)
  then show ?thesis
    by (cases t) (auto simp: applicationExists_def exec_select_eq_def rows_def filter_empty_conv)
qed

lemma exec_delete_after_exists: "applicationExists d p \<Longrightarrow> exec_delete p d \<noteq> None"
  by (cases d rule: db.exhaust)
    (auto simp: applicationExists_def exec_select_eq_def exec_delete_def split: option.splits)


section \<open>The return value of the table creation (C3)\<close>

text \<open>
  C3 says that \<open>_createTable\<close> returns true when it created the table and false when
  the table was there. The code returns false in both cases: \<open>success\<close> is never set to
  true. On an open database without the table the statement executes, the table is
  created, and the function returns false.
\<close>

theorem createTable_returns_false:
  "fst (createTable d) = False \<and> createTable (Opened None) = (False, Opened (Some []))"
  by (simp add: createTable_def exec_create_def split: option.splits)


section \<open>Remove, then exists (C9)\<close>

text \<open>
  C9. For every path and every store state, after \<open>_removeApplication\<close> on a path
  \<open>applicationExists\<close> on the same path returns false, provided that the delete
  statement executes when it runs (it runs when the lookup found the path; in this
  engine it then always executes, see \<open>exec_delete_after_exists\<close>).
\<close>

theorem remove_then_exists:
  "(applicationExists d path \<longrightarrow> exec_delete path d \<noteq> None) \<Longrightarrow>
   applicationExists (snd (removeApplication d path)) path = False"
  by (simp add: applicationExists_rows rows_removeApplication)

theorem remove_then_exists_witness:
  "applicationExists (Opened (Some [''/a/y.app'', ''/a/z''])) ''/a/z''
   \<and> exec_delete ''/a/z'' (Opened (Some [''/a/y.app'', ''/a/z''])) \<noteq> None
   \<and> applicationExists
        (snd (removeApplication (Opened (Some [''/a/y.app'', ''/a/z''])) ''/a/z'')) ''/a/z'' = False"
proof -
  have h: "applicationExists (Opened (Some [''/a/y.app'', ''/a/z''])) ''/a/z'' \<longrightarrow>
      exec_delete ''/a/z'' (Opened (Some [''/a/y.app'', ''/a/z''])) \<noteq> None"
    by (simp add: exec_delete_def)
  have e: "applicationExists (Opened (Some [''/a/y.app'', ''/a/z''])) ''/a/z''"
    by (simp add: applicationExists_def exec_select_eq_def)
  show ?thesis using h e remove_then_exists [OF h] by simp
qed


section \<open>A lookup that fails to execute (C10)\<close>

text \<open>
  C10. When the lookup statement fails to execute, \<open>applicationExists\<close> returns false,
  which is also what it returns on a store where the statement executes and finds no
  row with the path (the empty table): the boolean does not tell the two apart.
\<close>

theorem applicationExists_lookup_failure:
  "exec_select_eq path d = None \<Longrightarrow>
   applicationExists d path = False
   \<and> exec_select_eq path (Opened (Some [])) = Some []
   \<and> applicationExists (Opened (Some [])) path = applicationExists d path"
  by (simp add: applicationExists_def exec_select_eq_def)

theorem applicationExists_lookup_failure_witness:
  "exec_select_eq ''/a/z'' Closed = None
   \<and> applicationExists Closed ''/a/z'' = False
   \<and> applicationExists (Opened (Some [])) ''/a/z'' = applicationExists Closed ''/a/z''"
proof -
  have h: "exec_select_eq ''/a/z'' Closed = None"
    by (simp add: exec_select_eq_def)
  show ?thesis using h applicationExists_lookup_failure [OF h] by simp
qed


section \<open>The store under the resolver\<close>

lemma store_getAttributeValueQString:
  "store (snd (getAttributeValueQString w p k)) = store w"
  by (simp add: getAttributeValueQString_def Let_def split: option.splits)

lemma store_setAttributeValueQString:
  "store (snd (setAttributeValueQString w p k v)) = store w"
  by (simp add: setAttributeValueQString_def Let_def)

lemma store_getCanOpenFromFile:
  "store (snd (getCanOpenFromFile w cp)) = store w"
  by (simp add: getCanOpenFromFile_def getAttributeValueQString_def openFile_def Let_def
      split: option.splits)

lemma store_handleApplication:
  "store (handleApplication w path) =
     (if isDir w (canonicalPath w path) \<or> isFile w (canonicalPath w path)
      then snd (addApplication (store w) (canonicalPath w path))
      else snd (removeApplication (store w) (canonicalPath w path)))"
proof -
  let ?cp = "canonicalPath w path"
  let ?w1 = "w\<lparr>store := snd (addApplication (store w) ?cp)\<rparr>"
  have g: "\<And>u. store (snd (getCanOpenFromFile u ?cp)) = store u"
    by (rule store_getCanOpenFromFile)
  show ?thesis
    by (simp add: handleApplication_def Let_def getAttributeValueQString_def
        store_setAttributeValueQString g case_prod_unfold split: option.splits)
qed

lemma distinct_perform: "distinct (rows (store w)) \<Longrightarrow> distinct (rows (store (perform w op)))"
proof (cases op)
  case OpCreateTable
  assume "distinct (rows (store w))"
  with OpCreateTable show ?thesis by (simp add: rows_createTable)
next
  case (OpAdd p)
  assume "distinct (rows (store w))"
  with OpAdd show ?thesis by (simp add: rows_addApplication)
next
  case (OpRemove p)
  assume "distinct (rows (store w))"
  with OpRemove show ?thesis by (simp add: rows_removeApplication)
next
  case OpRemoveAll
  then show ?thesis by (simp add: rows_removeAllApplications)
next
  case (OpExists p)
  assume "distinct (rows (store w))"
  with OpExists show ?thesis by simp
next
  case OpAll
  assume "distinct (rows (store w))"
  with OpAll show ?thesis by simp
next
  case (OpHandle p)
  assume "distinct (rows (store w))"
  with OpHandle show ?thesis
    by (simp add: store_handleApplication rows_addApplication rows_removeApplication)
qed


section \<open>No two rows with the same path (C7)\<close>

text \<open>
  C7. From a store whose rows are pairwise different (the empty table, no table, or any
  table without duplicates), every sequence of operations (table creation, add, remove,
  removeAll, the lookups and \<open>handleApplication\<close>) leads to a store whose rows are
  pairwise different: each path occurs at most once in the table.
\<close>

theorem registry_paths_distinct:
  "distinct (rows (store w)) \<Longrightarrow> distinct (rows (store (foldl perform w ops)))"
proof (induction ops arbitrary: w)
  case Nil
  then show ?case by simp
next
  case (Cons op ops)
  from Cons.prems have "distinct (rows (store (perform w op)))"
    by (rule distinct_perform)
  then have "distinct (rows (store (foldl perform (perform w op) ops)))"
    by (rule Cons.IH)
  then show ?case by simp
qed

theorem registry_paths_distinct_witness:
  "distinct (rows (store (foldl perform
       \<lparr>store = Opened (Some []), filesystemSupportsExtattr = True,
       realPath = (\<lambda>p. if p = ''/a/y.app'' then Some p else None),
       isDir = (\<lambda>p. p = ''/a/y.app''),
       isFile = (\<lambda>p. False),
       fileText = (\<lambda>p. None),
       xattr = (\<lambda>k. None),
       xattrSettable = (\<lambda>p. True), trace = []\<rparr>
       [OpAdd ''/a/y.app'', OpAdd ''/a/y.app'', OpHandle ''/a/y.app'', OpRemove ''/a/z''])))"
proof -
  let ?w = "\<lparr>store = Opened (Some []), filesystemSupportsExtattr = True,
       realPath = (\<lambda>p. if p = ''/a/y.app'' then Some p else None),
       isDir = (\<lambda>p. p = ''/a/y.app''),
       isFile = (\<lambda>p. False),
       fileText = (\<lambda>p. None),
       xattr = (\<lambda>k. None),
       xattrSettable = (\<lambda>p. True), trace = []\<rparr>"
  have h: "distinct (rows (store ?w))"
    by (simp add: rows_def)
  show ?thesis
    by (rule registry_paths_distinct [OF h])
qed


section \<open>A path with a cached marker (C5)\<close>

text \<open>
  C5. For a path whose canonical form exists on disk, ends in \<open>.desktop\<close> and has the
  \<open>can-open\<close> attribute in the attribute store, \<open>handleApplication\<close> calls the string
  setter of the attribute store zero times: the setter calls of the trace and the
  attribute store are as before.
\<close>

theorem handleApplication_cached_marker:
  assumes "isDir w (canonicalPath w path) \<or> isFile w (canonicalPath w path)"
    and "endsWith (canonicalPath w path) ''.desktop''"
    and "xattr w (canonicalPath w path, ''can-open'') \<noteq> None"
  shows "attrSets (trace (handleApplication w path)) = attrSets (trace w)
    \<and> xattr (handleApplication w path) = xattr w"
  using assms(1,3)
  by (auto simp: handleApplication_def Let_def getAttributeValueQString_def attrSets_def
      isAttrSet_def)

theorem handleApplication_cached_marker_witness:
  "endsWith ''/a/x.desktop'' ''.desktop''
   \<and> attrSets (trace (handleApplication
       \<lparr>store = Opened (Some [''/a/x.desktop'']), filesystemSupportsExtattr = True,
       realPath = (\<lambda>p. if p = ''/a/x.desktop'' then Some p else None),
       isDir = (\<lambda>p. False),
       isFile = (\<lambda>p. p = ''/a/x.desktop''),
       fileText = (\<lambda>p. if p = ''/a/x.desktop'' then Some ''MimeType=text/plain;\<newline>'' else None),
       xattr = (\<lambda>k. if k = (''/a/x.desktop'', ''can-open'') then Some ''text/plain;'' else None),
       xattrSettable = (\<lambda>p. True), trace = []\<rparr>
       ''/a/x.desktop'')) = []"
proof -
  let ?w = "\<lparr>store = Opened (Some [''/a/x.desktop'']), filesystemSupportsExtattr = True,
       realPath = (\<lambda>p. if p = ''/a/x.desktop'' then Some p else None),
       isDir = (\<lambda>p. False),
       isFile = (\<lambda>p. p = ''/a/x.desktop''),
       fileText = (\<lambda>p. if p = ''/a/x.desktop'' then Some ''MimeType=text/plain;\<newline>'' else None),
       xattr = (\<lambda>k. if k = (''/a/x.desktop'', ''can-open'') then Some ''text/plain;'' else None),
       xattrSettable = (\<lambda>p. True), trace = []\<rparr>"
  have h1: "isDir ?w (canonicalPath ?w ''/a/x.desktop'') \<or> isFile ?w (canonicalPath ?w ''/a/x.desktop'')"
    by (simp add: canonicalPath_def)
  have h2: "endsWith (canonicalPath ?w ''/a/x.desktop'') ''.desktop''"
    by (simp add: canonicalPath_def endsWith_def)
  have h3: "xattr ?w (canonicalPath ?w ''/a/x.desktop'', ''can-open'') \<noteq> None"
    by (simp add: canonicalPath_def)
  have e: "endsWith ''/a/x.desktop'' ''.desktop''"
    by (simp add: endsWith_def)
  show ?thesis
    using e handleApplication_cached_marker [OF h1 h2 h3]
    by (simp add: attrSets_def)
qed


section \<open>A path that is not on disk (C6)\<close>

text \<open>
  C6 says that for a path that is not on disk \<open>handleApplication\<close> removes the row of the
  path. The code does not: for a path that does not exist \<open>canonicalPath\<close> is the empty
  string, which is neither a directory nor a file, so the function calls
  \<open>_removeApplication\<close> on the empty string. The rows with a path that is not empty stay,
  the row of the path that vanished among them: \<open>applicationExists\<close> on it answers as
  before. Nothing else happens (no file is opened, the attribute store is not touched).
\<close>

theorem handleApplication_missing_path:
  assumes "realPath w path = None"
    and "\<not> isDir w []"
    and "\<not> isFile w []"
  shows "canonicalPath w path = []
    \<and> handleApplication w path = w\<lparr>store := snd (removeApplication (store w) [])\<rparr>
    \<and> rows (store (handleApplication w path)) = filter (\<lambda>r. r \<noteq> []) (rows (store w))
    \<and> (path \<noteq> [] \<longrightarrow>
          applicationExists (store (handleApplication w path)) path =
          applicationExists (store w) path)"
proof -
  have c: "canonicalPath w path = []"
    using assms(1) by (simp add: canonicalPath_def)
  have h: "handleApplication w path = w\<lparr>store := snd (removeApplication (store w) [])\<rparr>"
    using assms(2,3) by (simp add: handleApplication_def Let_def c)
  show ?thesis
    unfolding h using c by (simp add: rows_removeApplication applicationExists_rows)
qed

theorem handleApplication_missing_path_witness:
  "canonicalPath
       \<lparr>store = Opened (Some [''/gone.app'', ''/a/y.app'']),
       filesystemSupportsExtattr = True,
       realPath = (\<lambda>p. if p = ''/a/y.app'' then Some p else None),
       isDir = (\<lambda>p. p = ''/a/y.app''),
       isFile = (\<lambda>p. False),
       fileText = (\<lambda>p. None),
       xattr = (\<lambda>k. None),
       xattrSettable = (\<lambda>p. True), trace = []\<rparr>
       ''/gone.app'' = []
   \<and> rows (store (handleApplication
       \<lparr>store = Opened (Some [''/gone.app'', ''/a/y.app'']),
       filesystemSupportsExtattr = True,
       realPath = (\<lambda>p. if p = ''/a/y.app'' then Some p else None),
       isDir = (\<lambda>p. p = ''/a/y.app''),
       isFile = (\<lambda>p. False),
       fileText = (\<lambda>p. None),
       xattr = (\<lambda>k. None),
       xattrSettable = (\<lambda>p. True), trace = []\<rparr>
       ''/gone.app'')) = [''/gone.app'', ''/a/y.app'']
   \<and> applicationExists (store (handleApplication
       \<lparr>store = Opened (Some [''/gone.app'', ''/a/y.app'']),
       filesystemSupportsExtattr = True,
       realPath = (\<lambda>p. if p = ''/a/y.app'' then Some p else None),
       isDir = (\<lambda>p. p = ''/a/y.app''),
       isFile = (\<lambda>p. False),
       fileText = (\<lambda>p. None),
       xattr = (\<lambda>k. None),
       xattrSettable = (\<lambda>p. True), trace = []\<rparr>
       ''/gone.app'')) ''/gone.app''"
proof -
  let ?w = "\<lparr>store = Opened (Some [''/gone.app'', ''/a/y.app'']),
       filesystemSupportsExtattr = True,
       realPath = (\<lambda>p. if p = ''/a/y.app'' then Some p else None),
       isDir = (\<lambda>p. p = ''/a/y.app''),
       isFile = (\<lambda>p. False),
       fileText = (\<lambda>p. None),
       xattr = (\<lambda>k. None),
       xattrSettable = (\<lambda>p. True), trace = []\<rparr>"
  have h1: "realPath ?w ''/gone.app'' = None"
    by simp
  have h2: "\<not> isDir ?w []"
    by simp
  have h3: "\<not> isFile ?w []"
    by simp
  note d = handleApplication_missing_path [OF h1 h2 h3]
  have c: "canonicalPath ?w ''/gone.app'' = []"
    using d by (elim conjE)
  have r: "rows (store (handleApplication ?w ''/gone.app'')) =
      filter (\<lambda>r. r \<noteq> []) (rows (store ?w))"
    using d by (elim conjE)
  show ?thesis
    unfolding c r applicationExists_rows by (simp add: rows_def)
qed

section \<open>The capability of a bundle (C8)\<close>

text \<open>
  C8. For a path that ends in \<open>.app\<close>: when \<open>Resources/can-open\<close> under it is a file and
  opens for reading, \<open>getCanOpenFromFile\<close> returns the whole text of that file as it is
  (a file with the text \<open>text/plain\<close> and a line feed yields exactly that text, line
  feed included); when it is not a file or does not open, the result is the null string
  (no capability).
\<close>

theorem getCanOpenFromFile_bundle:
  assumes "endsWith cp ''.app''"
  shows "(isFile w (cp @ ''/Resources/can-open'')
          \<and> fileText w (cp @ ''/Resources/can-open'') = Some t
          \<longrightarrow> fst (getCanOpenFromFile w cp) = Some t)
    \<and> (\<not> isFile w (cp @ ''/Resources/can-open'')
          \<or> fileText w (cp @ ''/Resources/can-open'') = None
          \<longrightarrow> fst (getCanOpenFromFile w cp) = None)"
  using assms
  by (auto simp: getCanOpenFromFile_def openFile_def readAll_def Let_def)

theorem getCanOpenFromFile_bundle_witness:
  "endsWith ''/a/y.app'' ''.app''
   \<and> fst (getCanOpenFromFile
       \<lparr>store = Opened (Some []), filesystemSupportsExtattr = True,
       realPath = (\<lambda>p. if p = ''/a/y.app'' \<or> p = ''/a/y.app/Resources/can-open'' then Some p else None),
       isDir = (\<lambda>p. p = ''/a/y.app''),
       isFile = (\<lambda>p. p = ''/a/y.app/Resources/can-open''),
       fileText = (\<lambda>p. if p = ''/a/y.app/Resources/can-open'' then Some ''text/plain\<newline>'' else None),
       xattr = (\<lambda>k. None),
       xattrSettable = (\<lambda>p. True), trace = []\<rparr>
       ''/a/y.app'') = Some ''text/plain\<newline>''
   \<and> fst (getCanOpenFromFile
       \<lparr>store = Opened (Some []), filesystemSupportsExtattr = True,
       realPath = (\<lambda>p. if p = ''/a/y.app'' then Some p else None),
       isDir = (\<lambda>p. p = ''/a/y.app''),
       isFile = (\<lambda>p. False),
       fileText = (\<lambda>p. None),
       xattr = (\<lambda>k. None),
       xattrSettable = (\<lambda>p. True), trace = []\<rparr>
       ''/a/y.app'') = None"
proof -
  let ?w = "\<lparr>store = Opened (Some []), filesystemSupportsExtattr = True,
       realPath = (\<lambda>p. if p = ''/a/y.app'' \<or> p = ''/a/y.app/Resources/can-open'' then Some p else None),
       isDir = (\<lambda>p. p = ''/a/y.app''),
       isFile = (\<lambda>p. p = ''/a/y.app/Resources/can-open''),
       fileText = (\<lambda>p. if p = ''/a/y.app/Resources/can-open'' then Some ''text/plain\<newline>'' else None),
       xattr = (\<lambda>k. None),
       xattrSettable = (\<lambda>p. True), trace = []\<rparr>"
  let ?v = "\<lparr>store = Opened (Some []), filesystemSupportsExtattr = True,
       realPath = (\<lambda>p. if p = ''/a/y.app'' then Some p else None),
       isDir = (\<lambda>p. p = ''/a/y.app''),
       isFile = (\<lambda>p. False),
       fileText = (\<lambda>p. None),
       xattr = (\<lambda>k. None),
       xattrSettable = (\<lambda>p. True), trace = []\<rparr>"
  have h: "endsWith ''/a/y.app'' ''.app''"
    by (simp add: endsWith_def)
  show ?thesis
    using h getCanOpenFromFile_bundle [OF h, of ?w "''text/plain\<newline>''"]
      getCanOpenFromFile_bundle [OF h, of ?v "[]"]
    by simp
qed


section \<open>The lines of a desktop file\<close>

lemma remove_front: "remove 0 n s = drop n s"
  by (simp add: remove_def)

lemma startsWith_append: "startsWith s p \<Longrightarrow> s = p @ drop (length p) s"
proof -
  assume "startsWith s p"
  then have "take (length p) s = p" by (simp add: startsWith_def)
  then have "take (length p) s @ drop (length p) s = p @ drop (length p) s" by simp
  then show ?thesis by simp
qed

lemma scanLines_textLines:
  "scanLines inp mime =
     (let ms = filter (\<lambda>l. startsWith l ''MimeType='') (map trimmed (textLines inp))
      in if ms = [] then mime else remove 0 9 (last ms))"
proof (induction inp mime rule: scanLines.induct)
  case (1 inp mime)
  show ?case
  proof (cases "atEnd inp")
    case True
    then show ?thesis
      by (simp add: scanLines.simps [of inp] textLines.simps [of inp])
  next
    case False
    let ?l = "trimmed (fst (readLine inp))"
    let ?rest = "snd (readLine inp)"
    have tl: "textLines inp = fst (readLine inp) # textLines ?rest"
      using False by (simp add: textLines.simps [of inp])
    show ?thesis
    proof (cases "startsWith ?l ''MimeType=''")
      case True
      have "scanLines inp mime = scanLines ?rest (remove 0 9 ?l)"
        using False True by (simp add: scanLines.simps [of inp] Let_def)
      also have "\<dots> =
        (let ms = filter (\<lambda>l. startsWith l ''MimeType='') (map trimmed (textLines ?rest))
         in if ms = [] then remove 0 9 ?l else remove 0 9 (last ms))"
        using False True by (rule "1.IH"(1) [OF _ refl])
      finally show ?thesis
        using True by (simp add: tl Let_def)
    next
      case nomatch: False
      have "scanLines inp mime = scanLines ?rest mime"
        using False nomatch by (simp add: scanLines.simps [of inp] Let_def)
      also have "\<dots> =
        (let ms = filter (\<lambda>l. startsWith l ''MimeType='') (map trimmed (textLines ?rest))
         in if ms = [] then mime else remove 0 9 (last ms))"
        using False nomatch by (rule "1.IH"(2) [OF _ refl])
      finally show ?thesis
        using nomatch by (simp add: tl Let_def)
    qed
  qed
qed

lemma desktop_not_app: "endsWith cp ''.desktop'' \<Longrightarrow> \<not> endsWith cp ''.app''"
proof
  assume d: "endsWith cp ''.desktop''" and a: "endsWith cp ''.app''"
  from d obtain pre where p: "cp = pre @ ''.desktop''" by (auto simp: endsWith_iff)
  from a obtain pre' where p': "cp = pre' @ ''.app''" by (auto simp: endsWith_iff)
  have "rev cp = rev ''.desktop'' @ rev pre" using p by simp
  moreover have "rev cp = rev ''.app'' @ rev pre'" using p' by simp
  ultimately show False by simp
qed


lemma trimmed_decomp:
  "\<exists>pre post. s = pre @ trimmed s @ post \<and> list_all isSpace pre \<and> list_all isSpace post"
proof -
  let ?b = "dropWhile isSpace s"
  let ?c = "takeWhile isSpace (rev ?b)"
  have t: "trimmed s = rev (dropWhile isSpace (rev ?b))"
    by (simp add: trimmed_def)
  have "rev (?c @ dropWhile isSpace (rev ?b)) = rev (rev ?b)"
    by (simp only: takeWhile_dropWhile_id)
  then have "rev (dropWhile isSpace (rev ?b)) @ rev ?c = ?b"
    by (simp only: rev_append rev_rev_ident)
  then have b: "?b = trimmed s @ rev ?c" by (simp only: t)
  have "s = takeWhile isSpace s @ ?b" by simp
  with b have "s = takeWhile isSpace s @ trimmed s @ rev ?c" by simp
  moreover have "list_all isSpace (takeWhile isSpace s)"
    by (simp add: list_all_iff) (meson set_takeWhileD)
  moreover have "list_all isSpace (rev ?c)"
    by (simp add: list_all_iff) (meson set_takeWhileD)
  ultimately show ?thesis by blast
qed

lemma trimmed_ends:
  assumes "trimmed s \<noteq> []"
  shows "\<not> isSpace (hd (trimmed s)) \<and> \<not> isSpace (last (trimmed s))"
proof -
  let ?b = "dropWhile isSpace s"
  let ?d = "dropWhile isSpace (rev ?b)"
  have t: "trimmed s = rev ?d" by (simp add: trimmed_def)
  with assms have d: "?d \<noteq> []" by simp
  then have "\<not> isSpace (hd ?d)" by (rule hd_dropWhile)
  then have l: "\<not> isSpace (last (trimmed s))" using d by (simp add: t last_rev)
  have b: "?b \<noteq> []"
  proof
    assume "?b = []"
    then have "?d = dropWhile isSpace (rev [])" by (simp only:)
    with d show False by simp
  qed
  then have hb: "\<not> isSpace (hd ?b)" by (rule hd_dropWhile)
  have "last (takeWhile isSpace (rev ?b) @ ?d) = last ?d"
    using d by (rule last_appendR)
  then have "last (rev ?b) = last ?d"
    by (simp only: takeWhile_dropWhile_id)
  then have "hd ?b = last ?d" using b by (simp add: last_rev)
  then have "\<not> isSpace (hd (trimmed s))" using hb d by (simp add: t hd_rev)
  with l show ?thesis by simp
qed

lemma readLine_no_newline: "CHR 0x0A \<notin> set (fst (readLine inp))"
proof -
  have a: "CHR 0x0A \<notin> set (takeWhile (\<lambda>c. c \<noteq> CHR 0x0A) inp)"
    using set_takeWhileD [of "CHR 0x0A" "\<lambda>c. c \<noteq> CHR 0x0A" inp] by blast
  then have "CHR 0x0A \<notin> set (butlast (takeWhile (\<lambda>c. c \<noteq> CHR 0x0A) inp))"
    by (meson in_set_butlastD)
  with a show ?thesis by (simp add: readLine_def Let_def)
qed

lemma textLines_no_newline: "l \<in> set (textLines inp) \<Longrightarrow> CHR 0x0A \<notin> set l"
proof (induction inp rule: textLines.induct)
  case (1 inp)
  show ?case
  proof (cases "atEnd inp")
    case True
    with "1.prems" show ?thesis by (simp add: textLines.simps [of inp])
  next
    case False
    with "1.prems" have "l = fst (readLine inp) \<or> l \<in> set (textLines (snd (readLine inp)))"
      by (simp add: textLines.simps [of inp])
    then show ?thesis
    proof
      assume "l = fst (readLine inp)"
      then show ?thesis by (simp only: readLine_no_newline not_False_eq_True)
    next
      assume "l \<in> set (textLines (snd (readLine inp)))"
      with False show ?thesis by (rule "1.IH")
    qed
  qed
qed

section \<open>The last MimeType line wins (C4)\<close>

text \<open>
  C4. For a path that ends in \<open>.desktop\<close>, has no \<open>can-open\<close> attribute and opens for
  reading, \<open>getCanOpenFromFile\<close> reads the file line by line, trims each line, and
  returns what follows the prefix \<open>MimeType=\<close> on the last trimmed line that starts with
  it (the empty string when no line does). Every line that is read has no line feed, and
  its trimmed form is the line without the whitespace at its two ends: what is cut off
  before and after is whitespace only, and what is left neither starts nor ends with
  whitespace. A file with the lines \<open>MimeType=text/plain;\<close> and \<open>MimeType=image/png;\<close>
  yields \<open>image/png;\<close>, also when blanks, a tab and a carriage return surround the lines.
\<close>

theorem getCanOpenFromFile_desktop_last_line:
  assumes "endsWith cp ''.desktop''"
    and "xattr w (cp, ''can-open'') = None"
    and "fileText w cp = Some t"
  shows "fst (getCanOpenFromFile w cp) =
           Some (if mimeLines t = [] then [] else drop 9 (last (mimeLines t)))
    \<and> (mimeLines t \<noteq> [] \<longrightarrow>
          last (mimeLines t) = ''MimeType='' @ drop 9 (last (mimeLines t)))
    \<and> mimeLines t = filter (\<lambda>l. startsWith l ''MimeType='') (map trimmed (textLines t))
    \<and> (\<forall>l \<in> set (textLines t).
          CHR 0x0A \<notin> set l
          \<and> (\<exists>pre post. l = pre @ trimmed l @ post
             \<and> list_all isSpace pre \<and> list_all isSpace post)
          \<and> (trimmed l \<noteq> [] \<longrightarrow>
                \<not> isSpace (hd (trimmed l)) \<and> \<not> isSpace (last (trimmed l))))"
proof -
  have na: "\<not> endsWith cp ''.app''"
    using assms(1) by (rule desktop_not_app)
  have r: "fst (getCanOpenFromFile w cp) = Some (scanLines t [])"
    using assms na
    by (simp add: getCanOpenFromFile_def getAttributeValueQString_def openFile_def Let_def)
  have s: "scanLines t [] = (if mimeLines t = [] then [] else drop 9 (last (mimeLines t)))"
    by (simp add: scanLines_textLines mimeLines_def remove_front Let_def)
  have p: "last (mimeLines t) = ''MimeType='' @ drop 9 (last (mimeLines t))"
    if ne: "mimeLines t \<noteq> []"
  proof -
    from ne have "last (mimeLines t) \<in> set (mimeLines t)" by (rule last_in_set)
    then have "startsWith (last (mimeLines t)) ''MimeType=''"
      by (simp add: mimeLines_def)
    then have "last (mimeLines t) = ''MimeType='' @ drop (length ''MimeType='') (last (mimeLines t))"
      by (rule startsWith_append)
    moreover have "length ''MimeType='' = 9" by simp
    ultimately show ?thesis by (simp only:)
  qed
  have tr: "\<forall>l \<in> set (textLines t).
          CHR 0x0A \<notin> set l
          \<and> (\<exists>pre post. l = pre @ trimmed l @ post
             \<and> list_all isSpace pre \<and> list_all isSpace post)
          \<and> (trimmed l \<noteq> [] \<longrightarrow>
                \<not> isSpace (hd (trimmed l)) \<and> \<not> isSpace (last (trimmed l)))"
    using trimmed_decomp trimmed_ends textLines_no_newline by blast
  have "fst (getCanOpenFromFile w cp) =
           Some (if mimeLines t = [] then [] else drop 9 (last (mimeLines t)))"
    using r s by simp
  moreover have "mimeLines t \<noteq> [] \<longrightarrow>
          last (mimeLines t) = ''MimeType='' @ drop 9 (last (mimeLines t))"
    using p by blast
  moreover have "mimeLines t = filter (\<lambda>l. startsWith l ''MimeType='') (map trimmed (textLines t))"
    by (rule mimeLines_def)
  ultimately show ?thesis using tr by (intro conjI)
qed

theorem getCanOpenFromFile_desktop_last_line_witness:
  "endsWith ''/a/x.desktop'' ''.desktop''
   \<and> textLines (''  MimeType=text/plain; '' @ [CHR 0x0D, CHR 0x0A, CHR 0x09] @ ''MimeType=image/png;  '' @ [CHR 0x0A] @ ''Name=X'' @ [CHR 0x0A]) =
        [''  MimeType=text/plain; '', CHR 0x09 # ''MimeType=image/png;  '', ''Name=X'']
   \<and> mimeLines (''  MimeType=text/plain; '' @ [CHR 0x0D, CHR 0x0A, CHR 0x09] @ ''MimeType=image/png;  '' @ [CHR 0x0A] @ ''Name=X'' @ [CHR 0x0A]) =
        [''MimeType=text/plain;'', ''MimeType=image/png;'']
   \<and> fst (getCanOpenFromFile
          \<lparr>store = Opened (Some []), filesystemSupportsExtattr = True,
       realPath = (\<lambda>p. if p = ''/a/x.desktop'' \<or> p = ''/a/s.desktop'' then Some p else None),
       isDir = (\<lambda>p. False),
       isFile = (\<lambda>p. p = ''/a/x.desktop'' \<or> p = ''/a/s.desktop''),
       fileText = (\<lambda>p.
         if p = ''/a/x.desktop'' then Some (''  MimeType=text/plain; '' @ [CHR 0x0D, CHR 0x0A, CHR 0x09] @ ''MimeType=image/png;  '' @ [CHR 0x0A] @ ''Name=X'' @ [CHR 0x0A])
         else if p = ''/a/s.desktop'' then Some ''MimeType=text/plain;\<newline>MimeType=image/png;\<newline>''
         else None),
       xattr = (\<lambda>k. None), xattrSettable = (\<lambda>p. True), trace = []\<rparr>
          ''/a/x.desktop'') = Some ''image/png;''
   \<and> fst (getCanOpenFromFile
          \<lparr>store = Opened (Some []), filesystemSupportsExtattr = True,
       realPath = (\<lambda>p. if p = ''/a/x.desktop'' \<or> p = ''/a/s.desktop'' then Some p else None),
       isDir = (\<lambda>p. False),
       isFile = (\<lambda>p. p = ''/a/x.desktop'' \<or> p = ''/a/s.desktop''),
       fileText = (\<lambda>p.
         if p = ''/a/x.desktop'' then Some (''  MimeType=text/plain; '' @ [CHR 0x0D, CHR 0x0A, CHR 0x09] @ ''MimeType=image/png;  '' @ [CHR 0x0A] @ ''Name=X'' @ [CHR 0x0A])
         else if p = ''/a/s.desktop'' then Some ''MimeType=text/plain;\<newline>MimeType=image/png;\<newline>''
         else None),
       xattr = (\<lambda>k. None), xattrSettable = (\<lambda>p. True), trace = []\<rparr>
          ''/a/s.desktop'') = Some ''image/png;''"
proof -
  let ?w = "\<lparr>store = Opened (Some []), filesystemSupportsExtattr = True,
       realPath = (\<lambda>p. if p = ''/a/x.desktop'' \<or> p = ''/a/s.desktop'' then Some p else None),
       isDir = (\<lambda>p. False),
       isFile = (\<lambda>p. p = ''/a/x.desktop'' \<or> p = ''/a/s.desktop''),
       fileText = (\<lambda>p.
         if p = ''/a/x.desktop'' then Some (''  MimeType=text/plain; '' @ [CHR 0x0D, CHR 0x0A, CHR 0x09] @ ''MimeType=image/png;  '' @ [CHR 0x0A] @ ''Name=X'' @ [CHR 0x0A])
         else if p = ''/a/s.desktop'' then Some ''MimeType=text/plain;\<newline>MimeType=image/png;\<newline>''
         else None),
       xattr = (\<lambda>k. None), xattrSettable = (\<lambda>p. True), trace = []\<rparr>"
  let ?t1 = "(''  MimeType=text/plain; '' @ [CHR 0x0D, CHR 0x0A, CHR 0x09] @ ''MimeType=image/png;  '' @ [CHR 0x0A] @ ''Name=X'' @ [CHR 0x0A])"
  let ?t2 = "''MimeType=text/plain;\<newline>MimeType=image/png;\<newline>''"
  have h1: "endsWith ''/a/x.desktop'' ''.desktop''"
    by (simp add: endsWith_def)
  have h2: "xattr ?w (''/a/x.desktop'', ''can-open'') = None"
    by simp
  have h3: "fileText ?w ''/a/x.desktop'' = Some ?t1"
    by simp
  have k1: "endsWith ''/a/s.desktop'' ''.desktop''"
    by (simp add: endsWith_def)
  have k2: "xattr ?w (''/a/s.desktop'', ''can-open'') = None"
    by simp
  have k3: "fileText ?w ''/a/s.desktop'' = Some ?t2"
    by simp
  have l1: "textLines ?t1 =
      [''  MimeType=text/plain; '', CHR 0x09 # ''MimeType=image/png;  '', ''Name=X'']"
    by code_simp
  have m1: "mimeLines ?t1 = [''MimeType=text/plain;'', ''MimeType=image/png;'']"
    by code_simp
  have m2: "mimeLines ?t2 = [''MimeType=text/plain;'', ''MimeType=image/png;'']"
    by code_simp
  have a: "fst (getCanOpenFromFile ?w ''/a/x.desktop'') =
      Some (if mimeLines ?t1 = [] then [] else drop 9 (last (mimeLines ?t1)))"
    using getCanOpenFromFile_desktop_last_line [OF h1 h2 h3] by (elim conjE)
  have b: "fst (getCanOpenFromFile ?w ''/a/s.desktop'') =
      Some (if mimeLines ?t2 = [] then [] else drop 9 (last (mimeLines ?t2)))"
    using getCanOpenFromFile_desktop_last_line [OF k1 k2 k3] by (elim conjE)
  show ?thesis
    unfolding a b m1 m2 using h1 l1 by simp
qed

section \<open>The result for a marker that is already set (C2)\<close>

text \<open>
  C2. For a path that ends in \<open>.desktop\<close> and has the \<open>can-open\<close> attribute,
  \<open>getCanOpenFromFile\<close> returns the null string \<open>QString()\<close>. For the same path without
  the attribute the result is never null, and when there is no \<open>MimeType=\<close> value (the
  file does not open, or none of its lines starts with the prefix) it is the empty string
  \<open>""\<close>: \<open>isNull\<close> tells the two results apart.
\<close>

theorem getCanOpenFromFile_already_resolved:
  assumes "endsWith cp ''.desktop''"
    and "xattr w (cp, ''can-open'') \<noteq> None"
    and "xattr w' (cp, ''can-open'') = None"
  shows "fst (getCanOpenFromFile w cp) = None
    \<and> isNull (fst (getCanOpenFromFile w cp))
    \<and> \<not> isNull (fst (getCanOpenFromFile w' cp))
    \<and> (fileText w' cp = None \<longrightarrow> fst (getCanOpenFromFile w' cp) = Some [])
    \<and> (\<forall>t. fileText w' cp = Some t \<and> mimeLines t = [] \<longrightarrow>
          fst (getCanOpenFromFile w' cp) = Some [])"
proof -
  have na: "\<not> endsWith cp ''.app''"
    using assms(1) by (rule desktop_not_app)
  have a: "fst (getCanOpenFromFile w cp) = None"
    using assms(1,2) na
    by (auto simp: getCanOpenFromFile_def getAttributeValueQString_def Let_def)
  have b: "fst (getCanOpenFromFile w' cp) =
      (case fileText w' cp of None \<Rightarrow> Some [] | Some t \<Rightarrow> Some (scanLines t []))"
    using assms(1,3) na
    by (simp add: getCanOpenFromFile_def getAttributeValueQString_def openFile_def Let_def
        split: option.splits)
  have c: "scanLines t [] = []" if "mimeLines t = []" for t
    using that by (simp add: scanLines_textLines mimeLines_def Let_def)
  have "\<not> isNull (fst (getCanOpenFromFile w' cp))"
    unfolding b by (simp add: isNull_def split: option.splits)
  moreover have "fileText w' cp = None \<longrightarrow> fst (getCanOpenFromFile w' cp) = Some []"
    unfolding b by simp
  moreover have "\<forall>t. fileText w' cp = Some t \<and> mimeLines t = [] \<longrightarrow>
      fst (getCanOpenFromFile w' cp) = Some []"
    unfolding b by (simp add: c)
  ultimately show ?thesis
    unfolding a by (simp add: isNull_def)
qed

theorem getCanOpenFromFile_already_resolved_witness:
  "endsWith ''/a/x.desktop'' ''.desktop''
   \<and> mimeLines ''Name=X\<newline>'' = []
   \<and> fst (getCanOpenFromFile
       \<lparr>store = Opened (Some []), filesystemSupportsExtattr = True,
       realPath = (\<lambda>p. if p = ''/a/x.desktop'' then Some p else None),
       isDir = (\<lambda>p. False),
       isFile = (\<lambda>p. p = ''/a/x.desktop''),
       fileText = (\<lambda>p. if p = ''/a/x.desktop'' then Some ''MimeType=text/plain;\<newline>'' else None),
       xattr = (\<lambda>k. if k = (''/a/x.desktop'', ''can-open'') then Some ''text/plain;'' else None),
       xattrSettable = (\<lambda>p. True), trace = []\<rparr>
       ''/a/x.desktop'') = None
   \<and> fst (getCanOpenFromFile
       \<lparr>store = Opened (Some []), filesystemSupportsExtattr = True,
       realPath = (\<lambda>p. if p = ''/a/x.desktop'' then Some p else None),
       isDir = (\<lambda>p. False),
       isFile = (\<lambda>p. p = ''/a/x.desktop''),
       fileText = (\<lambda>p. if p = ''/a/x.desktop'' then Some ''Name=X\<newline>'' else None),
       xattr = (\<lambda>k. None),
       xattrSettable = (\<lambda>p. True), trace = []\<rparr>
       ''/a/x.desktop'') = Some []"
proof -
  let ?w = "\<lparr>store = Opened (Some []), filesystemSupportsExtattr = True,
       realPath = (\<lambda>p. if p = ''/a/x.desktop'' then Some p else None),
       isDir = (\<lambda>p. False),
       isFile = (\<lambda>p. p = ''/a/x.desktop''),
       fileText = (\<lambda>p. if p = ''/a/x.desktop'' then Some ''MimeType=text/plain;\<newline>'' else None),
       xattr = (\<lambda>k. if k = (''/a/x.desktop'', ''can-open'') then Some ''text/plain;'' else None),
       xattrSettable = (\<lambda>p. True), trace = []\<rparr>"
  let ?w' = "\<lparr>store = Opened (Some []), filesystemSupportsExtattr = True,
       realPath = (\<lambda>p. if p = ''/a/x.desktop'' then Some p else None),
       isDir = (\<lambda>p. False),
       isFile = (\<lambda>p. p = ''/a/x.desktop''),
       fileText = (\<lambda>p. if p = ''/a/x.desktop'' then Some ''Name=X\<newline>'' else None),
       xattr = (\<lambda>k. None),
       xattrSettable = (\<lambda>p. True), trace = []\<rparr>"
  have h1: "endsWith ''/a/x.desktop'' ''.desktop''"
    by (simp add: endsWith_def)
  have h2: "xattr ?w (''/a/x.desktop'', ''can-open'') \<noteq> None"
    by simp
  have h3: "xattr ?w' (''/a/x.desktop'', ''can-open'') = None"
    by simp
  have h4: "fileText ?w' ''/a/x.desktop'' = Some ''Name=X\<newline>''"
    by simp
  have h5: "mimeLines ''Name=X\<newline>'' = []"
    by code_simp
  show ?thesis
    using h1 h4 h5 getCanOpenFromFile_already_resolved [OF h1 h2 h3]
    by simp
qed

section \<open>Further properties of the store\<close>

text \<open>
  Add, then exists: on a table that does not hold a non-empty path, \<open>_addApplication\<close>
  reports success, appends the path, and \<open>applicationExists\<close> on it is then true.
\<close>

theorem add_then_exists:
  assumes "path \<noteq> []" and "\<not> applicationExists (Opened (Some rs)) path"
  shows "addApplication (Opened (Some rs)) path = (True, Opened (Some (rs @ [path])))
    \<and> applicationExists (snd (addApplication (Opened (Some rs)) path)) path"
  using assms
  by (auto simp: addApplication_def exec_insert_def applicationExists_def exec_select_eq_def
      filter_empty_conv)

theorem add_then_exists_witness:
  "\<not> applicationExists (Opened (Some [''/a/z''])) ''/a/y.app''
   \<and> addApplication (Opened (Some [''/a/z''])) ''/a/y.app'' =
        (True, Opened (Some [''/a/z'', ''/a/y.app'']))
   \<and> applicationExists (snd (addApplication (Opened (Some [''/a/z''])) ''/a/y.app'')) ''/a/y.app''"
proof -
  have h1: "''/a/y.app'' \<noteq> []" by simp
  have h2: "\<not> applicationExists (Opened (Some [''/a/z''])) ''/a/y.app''"
    by (simp add: applicationExists_def exec_select_eq_def)
  show ?thesis using h2 add_then_exists [OF h1 h2]
    by (simp add: applicationExists_def exec_select_eq_def)
qed


text \<open>
  Adding a path that is already a row fails (the primary key refuses it), reports false
  and leaves the store as it was.
\<close>

theorem add_duplicate_fails:
  "applicationExists d path \<Longrightarrow> addApplication d path = (False, d)"
  by (cases d rule: db.exhaust)
    (auto simp: addApplication_def exec_insert_def applicationExists_def exec_select_eq_def
      filter_empty_conv split: option.splits)

theorem add_duplicate_fails_witness:
  "applicationExists (Opened (Some [''/a/z''])) ''/a/z''
   \<and> addApplication (Opened (Some [''/a/z''])) ''/a/z'' = (False, Opened (Some [''/a/z'']))"
proof -
  have h: "applicationExists (Opened (Some [''/a/z''])) ''/a/z''"
    by (simp add: applicationExists_def exec_select_eq_def)
  show ?thesis using h add_duplicate_fails [OF h] by simp
qed


text \<open>
  After \<open>removeAllApplications\<close> the store has no row: no path exists and the listing
  is empty.
\<close>

theorem removeAll_then_empty:
  "rows (snd (removeAllApplications d)) = []
   \<and> applicationExists (snd (removeAllApplications d)) path = False
   \<and> allApplications (snd (removeAllApplications d)) = []"
  by (simp add: rows_removeAllApplications applicationExists_rows allApplications_rows)


section \<open>Further properties of the resolver\<close>

text \<open>
  When the flag \<open>filesystemSupportsExtattr\<close> is off, \<open>handleApplication\<close> on a path that
  is on disk only adds the canonical path to the store: the attribute store is not
  touched and no file is opened.
\<close>

theorem handleApplication_without_extattr:
  assumes "isDir w (canonicalPath w path) \<or> isFile w (canonicalPath w path)"
    and "\<not> filesystemSupportsExtattr w"
  shows "handleApplication w path =
           w\<lparr>store := snd (addApplication (store w) (canonicalPath w path))\<rparr>"
  using assms by (auto simp: handleApplication_def Let_def)

theorem handleApplication_without_extattr_witness:
  "store (handleApplication
       \<lparr>store = Opened (Some []), filesystemSupportsExtattr = False,
       realPath = (\<lambda>p. if p = ''/a/y.app'' then Some p else None),
       isDir = (\<lambda>p. p = ''/a/y.app''),
       isFile = (\<lambda>p. False),
       fileText = (\<lambda>p. None),
       xattr = (\<lambda>k. None),
       xattrSettable = (\<lambda>p. True), trace = []\<rparr>
       ''/a/y.app'') = Opened (Some [''/a/y.app''])
   \<and> trace (handleApplication
       \<lparr>store = Opened (Some []), filesystemSupportsExtattr = False,
       realPath = (\<lambda>p. if p = ''/a/y.app'' then Some p else None),
       isDir = (\<lambda>p. p = ''/a/y.app''),
       isFile = (\<lambda>p. False),
       fileText = (\<lambda>p. None),
       xattr = (\<lambda>k. None),
       xattrSettable = (\<lambda>p. True), trace = []\<rparr>
       ''/a/y.app'') = []"
proof -
  let ?w = "\<lparr>store = Opened (Some []), filesystemSupportsExtattr = False,
       realPath = (\<lambda>p. if p = ''/a/y.app'' then Some p else None),
       isDir = (\<lambda>p. p = ''/a/y.app''),
       isFile = (\<lambda>p. False),
       fileText = (\<lambda>p. None),
       xattr = (\<lambda>k. None),
       xattrSettable = (\<lambda>p. True), trace = []\<rparr>"
  have h1: "isDir ?w (canonicalPath ?w ''/a/y.app'') \<or> isFile ?w (canonicalPath ?w ''/a/y.app'')"
    by (simp add: canonicalPath_def)
  have h2: "\<not> filesystemSupportsExtattr ?w"
    by simp
  show ?thesis
    unfolding handleApplication_without_extattr [OF h1 h2]
    by (simp add: addApplication_def exec_insert_def canonicalPath_def)
qed


text \<open>
  Caching: for a desktop file on disk without the \<open>can-open\<close> attribute, on a file system
  with extended attributes, whose last \<open>MimeType=\<close> line has a value that is not empty,
  \<open>handleApplication\<close> calls the string setter exactly once, with the canonical path, the
  key \<open>can-open\<close> and that value.
\<close>

theorem handleApplication_caches_capability:
  assumes "isDir w (canonicalPath w path) \<or> isFile w (canonicalPath w path)"
    and "filesystemSupportsExtattr w"
    and "xattr w (canonicalPath w path, ''can-open'') = None"
    and "endsWith (canonicalPath w path) ''.desktop''"
    and "fileText w (canonicalPath w path) = Some t"
    and "mimeLines t \<noteq> []"
    and "drop 9 (last (mimeLines t)) \<noteq> []"
  shows "attrSets (trace (handleApplication w path)) =
           attrSets (trace w) @
             [AttrSet (canonicalPath w path) ''can-open'' (drop 9 (last (mimeLines t)))]"
proof -
  let ?cp = "canonicalPath w path"
  let ?w2 = "w\<lparr>store := snd (addApplication (store w) ?cp),
                trace := trace w @ [AttrGet ?cp ''can-open'']\<rparr>"
  have na: "\<not> endsWith ?cp ''.app''"
    using assms(4) by (rule desktop_not_app)
  have s: "scanLines t [] = drop 9 (last (mimeLines t))"
    using assms(6) by (simp add: scanLines_textLines mimeLines_def remove_front Let_def)
  have g: "getCanOpenFromFile ?w2 ?cp =
      (Some (drop 9 (last (mimeLines t))),
       ?w2\<lparr>trace := trace w @ [AttrGet ?cp ''can-open'', AttrGet ?cp ''can-open'', FileOpen ?cp]\<rparr>)"
    using assms(3,4,5) na
    by (simp add: getCanOpenFromFile_def getAttributeValueQString_def openFile_def Let_def s)
  show ?thesis
    using assms(1,2,3,7)
    by (simp add: handleApplication_def Let_def getAttributeValueQString_def g
        setAttributeValueQString_def isEmpty_def qeq_def toText_def attrSets_def isAttrSet_def)
qed

theorem handleApplication_caches_capability_witness:
  "mimeLines ''MimeType=text/plain;\<newline>'' = [''MimeType=text/plain;'']
   \<and> attrSets (trace (handleApplication
       \<lparr>store = Opened (Some []), filesystemSupportsExtattr = True,
       realPath = (\<lambda>p. if p = ''/a/x.desktop'' then Some p else None),
       isDir = (\<lambda>p. False),
       isFile = (\<lambda>p. p = ''/a/x.desktop''),
       fileText = (\<lambda>p. if p = ''/a/x.desktop'' then Some ''MimeType=text/plain;\<newline>'' else None),
       xattr = (\<lambda>k. None),
       xattrSettable = (\<lambda>p. True), trace = []\<rparr>
       ''/a/x.desktop'')) = [AttrSet ''/a/x.desktop'' ''can-open'' ''text/plain;'']"
proof -
  let ?w = "\<lparr>store = Opened (Some []), filesystemSupportsExtattr = True,
       realPath = (\<lambda>p. if p = ''/a/x.desktop'' then Some p else None),
       isDir = (\<lambda>p. False),
       isFile = (\<lambda>p. p = ''/a/x.desktop''),
       fileText = (\<lambda>p. if p = ''/a/x.desktop'' then Some ''MimeType=text/plain;\<newline>'' else None),
       xattr = (\<lambda>k. None),
       xattrSettable = (\<lambda>p. True), trace = []\<rparr>"
  let ?t = "''MimeType=text/plain;\<newline>''"
  have m: "mimeLines ?t = [''MimeType=text/plain;'']"
    by code_simp
  have h1: "isDir ?w (canonicalPath ?w ''/a/x.desktop'') \<or> isFile ?w (canonicalPath ?w ''/a/x.desktop'')"
    by (simp add: canonicalPath_def)
  have h2: "filesystemSupportsExtattr ?w"
    by simp
  have h3: "xattr ?w (canonicalPath ?w ''/a/x.desktop'', ''can-open'') = None"
    by (simp add: canonicalPath_def)
  have h4: "endsWith (canonicalPath ?w ''/a/x.desktop'') ''.desktop''"
    by (simp add: canonicalPath_def endsWith_def)
  have h5: "fileText ?w (canonicalPath ?w ''/a/x.desktop'') = Some ?t"
    by (simp add: canonicalPath_def)
  have h6: "mimeLines ?t \<noteq> []"
    by (simp add: m)
  have h7: "drop 9 (last (mimeLines ?t)) \<noteq> []"
    by (simp add: m)
  show ?thesis
    using m handleApplication_caches_capability [OF h1 h2 h3 h4 h5 h6 h7]
    by (simp add: attrSets_def canonicalPath_def)
qed


end
